theory Spec2Isabelle
  imports Main
begin

section \<open>Python values\<close>

text \<open>
  The script \<^verbatim>\<open>scripts/python/add_new_anime.py\<close> works on the values that
  \<^verbatim>\<open>response.json()\<close> returns: \<^verbatim>\<open>None\<close>, booleans, integers, strings, lists and
  dictionaries. A dictionary is an association list with distinct keys, in insertion order.
  A string is a list of characters with code points below 256; the case conversions are
  exact for ASCII text. Numbers with a fractional part (Python floats) are outside the model.
\<close>

datatype json =
    JNull
  | JBool bool
  | JInt int
  | JStr string
  | JArr "json list"
  | JObj "(string \<times> json) list"

text \<open>
  The exceptions the script can meet. The first four are raised by the interpreter on the
  script's own expressions; the last three come from the libraries and the operating system
  (\<^verbatim>\<open>requests\<close>, \<^verbatim>\<open>response.json()\<close>, \<^verbatim>\<open>open\<close>, \<^verbatim>\<open>os.makedirs\<close>).
\<close>

datatype error =
    KeyError string
  | TypeError
  | AttributeError
  | ValueError
  | RequestException
  | JSONDecodeError
  | OSError

text \<open>Truth value testing (\<^verbatim>\<open>if x:\<close>, \<^verbatim>\<open>while x:\<close>, \<^verbatim>\<open>x or y\<close>).\<close>

fun truthy :: "json \<Rightarrow> bool" where
  "truthy JNull = False"
| "truthy (JBool b) = b"
| "truthy (JInt i) = (i \<noteq> 0)"
| "truthy (JStr s) = (s \<noteq> [])"
| "truthy (JArr xs) = (xs \<noteq> [])"
| "truthy (JObj kvs) = (kvs \<noteq> [])"

text \<open>\<^verbatim>\<open>x[key]\<close> with a string key: only a dictionary can be subscripted by a string.\<close>

fun getitem :: "json \<Rightarrow> string \<Rightarrow> error + json" where
  "getitem (JObj kvs) k = (case map_of kvs k of None \<Rightarrow> Inl (KeyError k) | Some v \<Rightarrow> Inr v)"
| "getitem _ k = Inl TypeError"

text \<open>\<^verbatim>\<open>x.get(key, default)\<close>: only a dictionary has the method.\<close>

fun get_default :: "json \<Rightarrow> string \<Rightarrow> json \<Rightarrow> error + json" where
  "get_default (JObj kvs) k d = (case map_of kvs k of None \<Rightarrow> Inr d | Some v \<Rightarrow> Inr v)"
| "get_default _ k d = Inl AttributeError"

text \<open>\<^verbatim>\<open>x.get(key)\<close> is \<^verbatim>\<open>x.get(key, None)\<close>.\<close>

definition get_none :: "json \<Rightarrow> string \<Rightarrow> error + json" where
  "get_none x k = get_default x k JNull"

subsection \<open>Text\<close>

definition digit_char :: "nat \<Rightarrow> char" where
  "digit_char d = char_of (48 + d)"

fun digits_of_nat :: "nat \<Rightarrow> string" where
  "digits_of_nat n = (if n < 10 then [digit_char n] else digits_of_nat (n div 10) @ [digit_char (n mod 10)])"

declare digits_of_nat.simps [simp del]

text \<open>\<^verbatim>\<open>str(i)\<close> for an integer.\<close>

definition str_int :: "int \<Rightarrow> string" where
  "str_int i = (if i < 0 then CHR ''-'' # digits_of_nat (nat (- i)) else digits_of_nat (nat i))"

definition is_upper :: "char \<Rightarrow> bool" where
  "is_upper c = (65 \<le> (of_char c :: nat) \<and> (of_char c :: nat) \<le> 90)"

definition is_lower :: "char \<Rightarrow> bool" where
  "is_lower c = (97 \<le> (of_char c :: nat) \<and> (of_char c :: nat) \<le> 122)"

definition lower_char :: "char \<Rightarrow> char" where
  "lower_char c = (if is_upper c then char_of ((of_char c :: nat) + 32) else c)"

definition upper_char :: "char \<Rightarrow> char" where
  "upper_char c = (if is_lower c then char_of ((of_char c :: nat) - 32) else c)"

text \<open>\<^verbatim>\<open>s.lower()\<close> and \<^verbatim>\<open>s.capitalize()\<close> (first character upper case, the rest lower case).\<close>

definition lower :: "string \<Rightarrow> string" where
  "lower s = map lower_char s"

fun capitalize :: "string \<Rightarrow> string" where
  "capitalize [] = []"
| "capitalize (c # cs) = upper_char c # map lower_char cs"

text \<open>\<^verbatim>\<open>s.replace(old, new)\<close> for a one-character \<^verbatim>\<open>old\<close>.\<close>

definition replace_char :: "char \<Rightarrow> string \<Rightarrow> string \<Rightarrow> string" where
  "replace_char old new s = concat (map (\<lambda>c. if c = old then new else [c]) s)"

fun join :: "string \<Rightarrow> string list \<Rightarrow> string" where
  "join sep [] = []"
| "join sep [x] = x"
| "join sep (x # y # ys) = x @ sep @ join sep (y # ys)"

definition hex_char :: "nat \<Rightarrow> char" where
  "hex_char d = (if d < 10 then char_of (48 + d) else char_of (87 + d))"

text \<open>
  \<^verbatim>\<open>repr(s)\<close> of a string: single quotes, unless the text holds a single quote and no
  double quote; the quote and the backslash are escaped, as are the characters that are not
  printable: below 256 these are the control characters (0 to 31, 127 to 159), the no-break
  space (160) and the soft hyphen (173).
\<close>

definition printable :: "char \<Rightarrow> bool" where
  "printable c =
     (32 \<le> (of_char c :: nat) \<and> (of_char c :: nat) \<noteq> 173
      \<and> \<not> (127 \<le> (of_char c :: nat) \<and> (of_char c :: nat) \<le> 160))"

definition repr_char :: "char \<Rightarrow> char \<Rightarrow> string" where
  "repr_char q c =
     (if c = q \<or> c = CHR 0x5C then [CHR 0x5C, c]
      else if c = CHR 0x09 then [CHR 0x5C, CHR ''t'']
      else if c = CHR 0x0A then [CHR 0x5C, CHR ''n'']
      else if c = CHR 0x0D then [CHR 0x5C, CHR ''r'']
      else if \<not> printable c
        then [CHR 0x5C, CHR ''x'', hex_char ((of_char c :: nat) div 16), hex_char ((of_char c :: nat) mod 16)]
      else [c])"

definition repr_str :: "string \<Rightarrow> string" where
  "repr_str s =
     (let q = (if CHR 0x27 \<in> set s \<and> CHR 0x22 \<notin> set s then CHR 0x22 else CHR 0x27)
      in q # concat (map (repr_char q) s) @ [q])"

fun repr :: "json \<Rightarrow> string" where
  "repr JNull = ''None''"
| "repr (JBool b) = (if b then ''True'' else ''False'')"
| "repr (JInt i) = str_int i"
| "repr (JStr s) = repr_str s"
| "repr (JArr xs) = ''['' @ join '', '' (map repr xs) @ '']''"
| "repr (JObj kvs) = ''{'' @ join '', '' (map (\<lambda>(k, v). repr_str k @ '': '' @ repr v) kvs) @ ''}''"

text \<open>\<^verbatim>\<open>str(x)\<close>: a string is itself, anything else is its \<^verbatim>\<open>repr\<close>.\<close>

fun str :: "json \<Rightarrow> string" where
  "str (JStr s) = s"
| "str v = repr v"

text \<open>POSIX \<^verbatim>\<open>os.path.join(a, b)\<close> and \<^verbatim>\<open>os.path.basename(p)\<close>.\<close>

definition path_join :: "string \<Rightarrow> string \<Rightarrow> string" where
  "path_join a b =
     (if b \<noteq> [] \<and> hd b = CHR ''/'' then b
      else if a = [] \<or> last a = CHR ''/'' then a @ b
      else a @ ''/'' @ b)"

definition basename :: "string \<Rightarrow> string" where
  "basename p = rev (takeWhile (\<lambda>c. c \<noteq> CHR ''/'') (rev p))"


section \<open>Dates\<close>

text \<open>
  \<^verbatim>\<open>datetime\<close> objects. \<^verbatim>\<open>utcoffset\<close> is the offset of an aware object in
  microseconds, \<open>None\<close> for a naive one. The constructor checks the ranges of its
  arguments and raises \<^verbatim>\<open>ValueError\<close> outside them.
\<close>

record datetime =
  year :: int
  month :: int
  day :: int
  hour :: int
  minute :: int
  second :: int
  microsecond :: int
  utcoffset :: "int option"

definition is_leap :: "int \<Rightarrow> bool" where
  "is_leap y = (y mod 4 = 0 \<and> (y mod 100 \<noteq> 0 \<or> y mod 400 = 0))"

definition days_in_month :: "int \<Rightarrow> int \<Rightarrow> int" where
  "days_in_month y m =
     (if m = 2 then (if is_leap y then 29 else 28)
      else if m \<in> set [4, 6, 9, 11] then 30 else 31)"

definition datetime_new ::
  "int \<Rightarrow> int \<Rightarrow> int \<Rightarrow> int \<Rightarrow> int \<Rightarrow> int \<Rightarrow> int \<Rightarrow> int option \<Rightarrow> error + datetime" where
  "datetime_new y mo d h mi s us tz =
     (if \<not> (1 \<le> y \<and> y \<le> 9999) then Inl ValueError
      else if \<not> (1 \<le> mo \<and> mo \<le> 12) then Inl ValueError
      else if \<not> (1 \<le> d \<and> d \<le> days_in_month y mo) then Inl ValueError
      else if \<not> (0 \<le> h \<and> h \<le> 23) then Inl ValueError
      else if \<not> (0 \<le> mi \<and> mi \<le> 59) then Inl ValueError
      else if \<not> (0 \<le> s \<and> s \<le> 59) then Inl ValueError
      else if \<not> (0 \<le> us \<and> us \<le> 999999) then Inl ValueError
      else Inr \<lparr>year = y, month = mo, day = d, hour = h, minute = mi, second = s,
                microsecond = us, utcoffset = tz\<rparr>)"

text \<open>\<^verbatim>\<open>datetime(year, month, day)\<close>: midnight, naive.\<close>

definition datetime_ymd :: "int \<Rightarrow> int \<Rightarrow> int \<Rightarrow> error + datetime" where
  "datetime_ymd y mo d = datetime_new y mo d 0 0 0 0 None"

subsection \<open>Parsing and printing\<close>

definition is_digit :: "char \<Rightarrow> bool" where
  "is_digit c = (48 \<le> (of_char c :: nat) \<and> (of_char c :: nat) \<le> 57)"

definition digit_val :: "char \<Rightarrow> int" where
  "digit_val c = int (of_char c) - 48"

text \<open>A non-empty run of ASCII digits, read as a decimal number.\<close>

definition parse_num :: "string \<Rightarrow> int option" where
  "parse_num s =
     (if s \<noteq> [] \<and> list_all is_digit s then Some (foldl (\<lambda>a c. 10 * a + digit_val c) 0 s)
      else None)"

text \<open>\<^verbatim>\<open>YYYY-MM-DD\<close>, exactly ten characters.\<close>

definition parse_isoformat_date :: "string \<Rightarrow> (int \<times> int \<times> int) option" where
  "parse_isoformat_date s =
     (if length s = 10 \<and> s ! 4 = CHR ''-'' \<and> s ! 7 = CHR ''-'' then
        (case (parse_num (take 4 s), parse_num (take 2 (drop 5 s)), parse_num (drop 8 s)) of
           (Some y, Some m, Some d) \<Rightarrow> Some (y, m, d)
         | _ \<Rightarrow> None)
      else None)"

text \<open>\<^verbatim>\<open>HH[:MM[:SS[.fff[fff]]]]\<close>: hour, minute, second, microsecond.\<close>

definition parse_hh_mm_ss_ff :: "string \<Rightarrow> (int \<times> int \<times> int \<times> int) option" where
  "parse_hh_mm_ss_ff t =
     (let n = length t in
      if n = 2 then
        (case parse_num t of Some h \<Rightarrow> Some (h, 0, 0, 0) | None \<Rightarrow> None)
      else if n = 5 \<and> t ! 2 = CHR '':'' then
        (case (parse_num (take 2 t), parse_num (drop 3 t)) of
           (Some h, Some m) \<Rightarrow> Some (h, m, 0, 0)
         | _ \<Rightarrow> None)
      else if n = 8 \<and> t ! 2 = CHR '':'' \<and> t ! 5 = CHR '':'' then
        (case (parse_num (take 2 t), parse_num (take 2 (drop 3 t)), parse_num (drop 6 t)) of
           (Some h, Some m, Some s) \<Rightarrow> Some (h, m, s, 0)
         | _ \<Rightarrow> None)
      else if (n = 12 \<or> n = 15) \<and> t ! 2 = CHR '':'' \<and> t ! 5 = CHR '':'' \<and> t ! 8 = CHR ''.'' then
        (case (parse_num (take 2 t), parse_num (take 2 (drop 3 t)), parse_num (take 2 (drop 6 t)),
               parse_num (drop 9 t)) of
           (Some h, Some m, Some s, Some f) \<Rightarrow> Some (h, m, s, if n = 12 then f * 1000 else f)
         | _ \<Rightarrow> None)
      else None)"

text \<open>
  The offset \<^verbatim>\<open>+HH:MM[:SS[.ffffff]]\<close> (or with \<^verbatim>\<open>-\<close>), in microseconds. It has
  to lie strictly between minus and plus 24 hours.
\<close>

definition parse_utcoffset :: "string \<Rightarrow> int option" where
  "parse_utcoffset z =
     (if z = [] \<or> length (tl z) \<notin> set [5, 8, 15] then None
      else
        (case parse_hh_mm_ss_ff (tl z) of
           None \<Rightarrow> None
         | Some (h, m, s, f) \<Rightarrow>
             (let off = (if hd z = CHR ''-'' then - 1 else 1) * ((h * 3600 + m * 60 + s) * 1000000 + f)
              in if - 86400000000 < off \<and> off < 86400000000 then Some off else None)))"

definition is_sign :: "char \<Rightarrow> bool" where
  "is_sign c = (c = CHR ''+'' \<or> c = CHR ''-'')"

text \<open>
  The format that \<^verbatim>\<open>datetime.fromisoformat\<close> documents since Python 3.7:
  \<^verbatim>\<open>YYYY-MM-DD[*HH[:MM[:SS[.fff[fff]]]][+HH:MM[:SS[.ffffff]]]]\<close>, where \<^verbatim>\<open>*\<close> is any
  single character. A text of this format whose fields are in range is read as below by
  every version of the library; \<open>parse_isoformat\<close> is an error for every other text.
\<close>

definition parse_isoformat :: "string \<Rightarrow> error + datetime" where
  "parse_isoformat s =
     (case parse_isoformat_date (take 10 s) of
        None \<Rightarrow> Inl ValueError
      | Some (y, mo, d) \<Rightarrow>
          if length s = 10 then datetime_new y mo d 0 0 0 0 None
          else
            (let tstr = drop 11 s;
                 timestr = takeWhile (\<lambda>c. \<not> is_sign c) tstr;
                 tzstr = dropWhile (\<lambda>c. \<not> is_sign c) tstr
             in case parse_hh_mm_ss_ff timestr of
                  None \<Rightarrow> Inl ValueError
                | Some (h, mi, sec, us) \<Rightarrow>
                    if tzstr = [] then datetime_new y mo d h mi sec us None
                    else
                      (case parse_utcoffset tzstr of
                         None \<Rightarrow> Inl ValueError
                       | Some off \<Rightarrow> datetime_new y mo d h mi sec us (Some off))))"

definition zero_pad :: "nat \<Rightarrow> nat \<Rightarrow> string" where
  "zero_pad w n = replicate (w - length (digits_of_nat n)) CHR ''0'' @ digits_of_nat n"

text \<open>
  \<^verbatim>\<open>dt.strftime("%Y-%m-%d")\<close>, as the C library of Linux prints it: \<^verbatim>\<open>%Y\<close> is the
  year as a decimal number, without leading zeros; \<^verbatim>\<open>%m\<close> and \<^verbatim>\<open>%d\<close> are month
  and day in two digits.
\<close>

definition strftime_ymd :: "datetime \<Rightarrow> string" where
  "strftime_ymd dt =
     str_int (year dt) @ ''-'' @ zero_pad 2 (nat (month dt)) @ ''-'' @ zero_pad 2 (nat (day dt))"

section \<open>The outside world\<close>

text \<open>
  The script's result dictionaries: an image descriptor, the formatted record of one anime
  (key \<^verbatim>\<open>id\<close> is the field \<open>id'\<close>) and the value written to the JSON file (key
  \<^verbatim>\<open>id\<close> is the field \<open>output_id\<close>).
\<close>

record image_descriptor =
  height :: json
  name :: string
  url :: json
  width :: json
  localPath :: string

record formatted_data =
  id' :: json
  seriesID :: json
  titleEnglish :: json
  titleRomaji :: json
  dateStart :: "string option"
  episodeCount :: json
  format :: json
  idKitsu :: json
  idMAL :: string
  season :: string
  keyVisuals :: "image_descriptor list"
  coverImages :: "image_descriptor list"

record season_batch =
  anime :: "formatted_data list"
  output_id :: string
  start :: "formatted_data option"

text \<open>
  Every call that reaches outside the process is an event; a run is the list of its events,
  oldest first. \<open>Get\<close> is \<^verbatim>\<open>requests.get(url, params=params)\<close> (no parameters is the
  empty list), \<open>WriteBytes\<close> is a binary file opened and written, \<open>DumpJson\<close> is a text
  file opened and \<^verbatim>\<open>json.dump(data, f, indent=2, ensure_ascii=False)\<close> written to it:
  the event keeps the dumped value, not its text.
\<close>

datatype event =
    Now
  | Get json "(string \<times> json) list"
  | Exists string
  | Makedirs string
  | WriteBytes string string
  | DumpJson string season_batch
  | Print string

type_synonym trace = "event list"

record response =
  status_code :: int
  content :: string
  json_result :: "error + json"

text \<open>
  What the world answers, as a function of the events so far and of the call: the clock, the
  HTTP server (an exception of \<^verbatim>\<open>requests\<close> or a response, whose \<^verbatim>\<open>json()\<close> is an
  exception or a value), the file system (an exception or success). \<open>urlparse_path\<close> is
  \<^verbatim>\<open>urllib.parse.urlparse(url).path\<close> on a string, which can raise \<^verbatim>\<open>ValueError\<close>.
  \<open>fromisoformat_other\<close> is what the installed \<^verbatim>\<open>datetime.fromisoformat\<close> makes of a
  text outside the format of \<open>parse_isoformat\<close>: a \<^verbatim>\<open>ValueError\<close> up to Python 3.10,
  while Python 3.11 and later read more of ISO 8601.
\<close>

record env =
  datetime_now :: "trace \<Rightarrow> datetime"
  requests_get :: "trace \<Rightarrow> json \<Rightarrow> (string \<times> json) list \<Rightarrow> error + response"
  os_path_exists :: "trace \<Rightarrow> string \<Rightarrow> bool"
  os_makedirs :: "trace \<Rightarrow> string \<Rightarrow> error option"
  open_write :: "trace \<Rightarrow> string \<Rightarrow> error option"
  urlparse_path :: "string \<Rightarrow> error + string"
  fromisoformat_other :: "string \<Rightarrow> error + datetime"

definition bind_err :: "error + 'a \<Rightarrow> ('a \<Rightarrow> error + 'b) \<Rightarrow> error + 'b" where
  "bind_err r f = (case r of Inl e \<Rightarrow> Inl e | Inr x \<Rightarrow> f x)"

section \<open>Date formatter\<close>

text \<open>
  \<^verbatim>\<open>datetime.fromisoformat(s)\<close>. Whatever the library returns is a \<^verbatim>\<open>datetime\<close>
  that its constructor has accepted.
\<close>

definition fromisoformat :: "env \<Rightarrow> string \<Rightarrow> error + datetime" where
  "fromisoformat env s =
     (case parse_isoformat s of
        Inr dt \<Rightarrow> Inr dt
      | Inl e \<Rightarrow>
          bind_err (fromisoformat_other env s)
            (\<lambda>dt. datetime_new (year dt) (month dt) (day dt) (hour dt) (minute dt) (second dt)
                    (microsecond dt) (utcoffset dt)))"

text \<open>
  \<^verbatim>\<open>format_date(date_string)\<close>. A false value (\<^verbatim>\<open>None\<close>, the empty string) gives
  \<^verbatim>\<open>None\<close>; a true value that is not a string has no \<^verbatim>\<open>replace\<close> method.
\<close>

definition format_date :: "env \<Rightarrow> json \<Rightarrow> error + string option" where
  "format_date env date_string =
     (if truthy date_string then
        (case date_string of
           JStr s \<Rightarrow>
             (case fromisoformat env (replace_char CHR ''Z'' ''+00:00'' s) of
                Inl e \<Rightarrow> Inl e
              | Inr dt \<Rightarrow> Inr (Some (strftime_ymd dt)))
         | _ \<Rightarrow> Inl AttributeError)
      else Inr None)"

section \<open>Season resolver\<close>

definition get_current_season :: "env \<Rightarrow> trace \<Rightarrow> string \<times> trace" where
  "get_current_season env t =
     (let now = datetime_now env t;
          m = month now
      in (if m \<in> set [1, 2, 3] then ''Winter''
          else if m \<in> set [4, 5, 6] then ''Spring''
          else if m \<in> set [7, 8, 9] then ''Summer''
          else ''Fall'',
          t @ [Now]))"

definition get_season_start_date :: "env \<Rightarrow> trace \<Rightarrow> (error + datetime) \<times> trace" where
  "get_season_start_date env t =
     (let now = datetime_now env t;
          y = year now
      in (if month now \<in> set [1, 2, 3] then datetime_ymd y 1 1
          else if month now \<in> set [4, 5, 6] then datetime_ymd y 4 1
          else if month now \<in> set [7, 8, 9] then datetime_ymd y 7 1
          else datetime_ymd y 10 1,
          t @ [Now]))"

section \<open>Paginated fetcher\<close>

text \<open>\<^verbatim>\<open>anime_list.extend(x)\<close>: a list gives its items, a string its characters, a
  dictionary its keys; anything else is not iterable.\<close>

fun extend :: "json list \<Rightarrow> json \<Rightarrow> error + json list" where
  "extend l (JArr xs) = Inr (l @ xs)"
| "extend l (JStr s) = Inr (l @ map (\<lambda>c. JStr [c]) s)"
| "extend l (JObj kvs) = Inr (l @ map (\<lambda>kv. JStr (fst kv)) kvs)"
| "extend l _ = Inl TypeError"

text \<open>The two statements of the loop body that read the decoded page: the extended list and
  the next value of \<^verbatim>\<open>url\<close>.\<close>

definition read_page :: "json \<Rightarrow> json list \<Rightarrow> error + json list \<times> json" where
  "read_page data anime_list =
     bind_err (getitem data ''data'') (\<lambda>d.
     bind_err (extend anime_list d) (\<lambda>anime_list'.
     bind_err (getitem data ''links'') (\<lambda>links.
     bind_err (get_none links ''next'') (\<lambda>next_url.
     Inr (anime_list', next_url)))))"

text \<open>The \<^verbatim>\<open>while url:\<close> loop. It need not end: \<open>None\<close> is a run that never returns.\<close>

partial_function (option) fetch_loop ::
  "env \<Rightarrow> json \<Rightarrow> (string \<times> json) list \<Rightarrow> json list \<Rightarrow> trace \<Rightarrow> ((error + json list) \<times> trace) option" where
  "fetch_loop env page_url params anime_list t =
     (if truthy page_url then
        (case requests_get env t page_url params of
           Inl e \<Rightarrow> Some (Inl e, t @ [Get page_url params])
         | Inr resp \<Rightarrow>
             (case bind_err (json_result resp) (\<lambda>data. read_page data anime_list) of
                Inl e \<Rightarrow> Some (Inl e, t @ [Get page_url params])
              | Inr (anime_list', next_url) \<Rightarrow>
                  fetch_loop env next_url [] anime_list' (t @ [Get page_url params])))
      else Some (Inr anime_list, t))"

declare fetch_loop.simps [code]

text \<open>The dictionary \<^verbatim>\<open>params\<close> of the first request (lines 34 to 40).\<close>

definition first_params :: "int \<Rightarrow> string \<Rightarrow> (string \<times> json) list" where
  "first_params season_year current_season =
     [(''filter[status]'', JStr ''current''),
      (''filter[seasonYear]'', JInt season_year),
      (''filter[season]'', JStr (lower current_season)),
      (''page[limit]'', JInt 20),
      (''sort'', JStr ''-userCount'')]"

definition fetch_simulcast_anime :: "env \<Rightarrow> trace \<Rightarrow> ((error + json list) \<times> trace) option" where
  "fetch_simulcast_anime env t =
     (case get_season_start_date env t of
        (Inl e, t1) \<Rightarrow> Some (Inl e, t1)
      | (Inr season_start, t1) \<Rightarrow>
          (case get_current_season env t1 of
             (current_season, t2) \<Rightarrow>
               fetch_loop env (JStr ''https://kitsu.io/api/edge/anime'')
                 (first_params (year season_start) current_season) [] t2))"

section \<open>Image downloader\<close>

text \<open>
  \<^verbatim>\<open>download_image(url, folder)\<close>. \<^verbatim>\<open>urlparse\<close> of a value that is not a string
  fails with \<^verbatim>\<open>AttributeError\<close>; \<^verbatim>\<open>open\<close> of the empty path always fails, any
  other path is the file system's decision.
\<close>

definition download_image :: "env \<Rightarrow> json \<Rightarrow> string \<Rightarrow> trace \<Rightarrow> (error + string option) \<times> trace" where
  "download_image env image_url folder t =
     (if \<not> truthy image_url then (Inr None, t)
      else
        (case image_url of
           JStr u \<Rightarrow>
             (case urlparse_path env u of
                Inl e \<Rightarrow> (Inl e, t)
              | Inr parsed_path \<Rightarrow>
                  (let filename = basename parsed_path;
                       file_path = path_join folder filename;
                       t1 = t @ [Get image_url []]
                   in case requests_get env t image_url [] of
                        Inl e \<Rightarrow> (Inl e, t1)
                      | Inr resp \<Rightarrow>
                          if status_code resp = 200 then
                            (if file_path = [] then (Inl OSError, t1)
                             else
                               (case open_write env t1 file_path of
                                  Some e \<Rightarrow> (Inl e, t1)
                                | None \<Rightarrow> (Inr (Some file_path), t1 @ [WriteBytes file_path (content resp)])))
                          else (Inr None, t1)))
         | _ \<Rightarrow> (Inl AttributeError, t)))"

section \<open>Record transformer\<close>

text \<open>\<^verbatim>\<open>x.get(k1, {}).get(k2, d)\<close>.\<close>

definition get_in :: "json \<Rightarrow> string \<Rightarrow> string \<Rightarrow> json \<Rightarrow> error + json" where
  "get_in x k1 k2 d = bind_err (get_default x k1 (JObj [])) (\<lambda>inner. get_default inner k2 d)"

text \<open>\<^verbatim>\<open>x.capitalize()\<close> and \<^verbatim>\<open>x.get(key) or {}\<close>.\<close>

definition capitalize_value :: "json \<Rightarrow> error + string" where
  "capitalize_value x = (case x of JStr s \<Rightarrow> Inr (capitalize s) | _ \<Rightarrow> Inl AttributeError)"

definition image_group :: "json \<Rightarrow> string \<Rightarrow> error + json" where
  "image_group attributes k =
     bind_err (get_none attributes k) (\<lambda>x. Inr (if truthy x then x else JObj []))"

text \<open>
  Lines 73 to 92: the attributes and the dictionary \<^verbatim>\<open>formatted_data\<close> with both image
  lists still empty. The entries are evaluated in the order of the source, so the first one
  that fails decides the exception.
\<close>

definition formatted_fields :: "env \<Rightarrow> json \<Rightarrow> error + json \<times> formatted_data" where
  "formatted_fields env anime_data =
     bind_err (getitem anime_data ''attributes'') (\<lambda>attributes.
     bind_err (get_none attributes ''episodeCount'') (\<lambda>episode_count0.
     let episode_count = (if episode_count0 = JNull then JStr ''None'' else episode_count0) in
     bind_err (getitem anime_data ''id'') (\<lambda>v_id.
     bind_err (getitem anime_data ''id'') (\<lambda>v_seriesID.
     bind_err (get_in attributes ''titles'' ''en'' (JStr [])) (\<lambda>v_titleEnglish.
     bind_err (get_in attributes ''titles'' ''en_jp'' (JStr [])) (\<lambda>v_titleRomaji.
     bind_err (get_none attributes ''startDate'') (\<lambda>start_date.
     bind_err (format_date env start_date) (\<lambda>v_dateStart.
     bind_err (get_default attributes ''subtype'' (JStr [])) (\<lambda>v_format.
     bind_err (getitem anime_data ''id'') (\<lambda>v_idKitsu.
     bind_err (get_in attributes ''mappings'' ''myanimelist/anime'' (JStr [])) (\<lambda>mal.
     bind_err (get_default attributes ''season'' (JStr [])) (\<lambda>season0.
     bind_err (capitalize_value season0) (\<lambda>v_season.
     Inr (attributes,
          \<lparr>id' = v_id, seriesID = v_seriesID, titleEnglish = v_titleEnglish,
           titleRomaji = v_titleRomaji, dateStart = v_dateStart, episodeCount = episode_count,
           format = v_format, idKitsu = v_idKitsu, idMAL = str mal, season = v_season,
           keyVisuals = [], coverImages = []\<rparr>))))))))))))))"

text \<open>\<^verbatim>\<open>image.get("meta", {}).get("dimensions", {}).get(size, {}).get(key, 0)\<close>.\<close>

definition dimension :: "json \<Rightarrow> string \<Rightarrow> string \<Rightarrow> error + json" where
  "dimension img sz k =
     bind_err (get_in img ''meta'' ''dimensions'' (JObj [])) (\<lambda>dims.
     bind_err (get_default dims sz (JObj [])) (\<lambda>dim.
     get_default dim k (JInt 0)))"

text \<open>The dictionary appended for one downloaded image.\<close>

definition descriptor :: "string \<Rightarrow> json \<Rightarrow> string \<Rightarrow> json \<Rightarrow> string \<Rightarrow> error + image_descriptor" where
  "descriptor prefix img sz image_url local_path =
     bind_err (dimension img sz ''height'') (\<lambda>h.
     bind_err (dimension img sz ''width'') (\<lambda>w.
     Inr \<lparr>height = h, name = prefix @ sz, url = image_url, width = w, localPath = local_path\<rparr>))"

text \<open>
  The loop over the sizes of one image group. The source writes it twice, for the posters
  with the names \<^verbatim>\<open>poster_<size>\<close> and for the covers with \<^verbatim>\<open>cover_<size>\<close>; here
  the prefix is a parameter and \<open>acc\<close> is the list appended to. The test
  \<^verbatim>\<open>if local_path:\<close> fails for \<^verbatim>\<open>None\<close> and for the empty string.
\<close>

fun image_loop ::
  "env \<Rightarrow> string \<Rightarrow> json \<Rightarrow> string \<Rightarrow> string list \<Rightarrow> image_descriptor list \<Rightarrow> trace
     \<Rightarrow> (error + image_descriptor list) \<times> trace" where
  "image_loop env prefix img folder [] acc t = (Inr acc, t)"
| "image_loop env prefix img folder (sz # sizes) acc t =
     (case get_none img sz of
        Inl e \<Rightarrow> (Inl e, t)
      | Inr image_url \<Rightarrow>
          if truthy image_url then
            (case download_image env image_url folder t of
               (Inl e, t1) \<Rightarrow> (Inl e, t1)
             | (Inr None, t1) \<Rightarrow> image_loop env prefix img folder sizes acc t1
             | (Inr (Some local_path), t1) \<Rightarrow>
                 if local_path \<noteq> [] then
                   (case descriptor prefix img sz image_url local_path of
                      Inl e \<Rightarrow> (Inl e, t1)
                    | Inr d \<Rightarrow> image_loop env prefix img folder sizes (acc @ [d]) t1)
                 else image_loop env prefix img folder sizes acc t1)
          else image_loop env prefix img folder sizes acc t)"

definition poster_sizes :: "string list" where
  "poster_sizes = [''tiny'', ''small'', ''medium'', ''large'', ''original'']"

definition cover_sizes :: "string list" where
  "cover_sizes = [''tiny'', ''small'', ''large'', ''original'']"

definition extract_anime_data :: "env \<Rightarrow> json \<Rightarrow> string \<Rightarrow> trace \<Rightarrow> (error + formatted_data) \<times> trace" where
  "extract_anime_data env anime_data images_folder t =
     (case formatted_fields env anime_data of
        Inl e \<Rightarrow> (Inl e, t)
      | Inr (attributes, fd) \<Rightarrow>
          (case image_group attributes ''posterImage'' of
             Inl e \<Rightarrow> (Inl e, t)
           | Inr poster_image \<Rightarrow>
               (case image_loop env ''poster_'' poster_image images_folder poster_sizes [] t of
                  (Inl e, t1) \<Rightarrow> (Inl e, t1)
                | (Inr key_visuals, t1) \<Rightarrow>
                    (case image_group attributes ''coverImage'' of
                       Inl e \<Rightarrow> (Inl e, t1)
                     | Inr cover_image \<Rightarrow>
                         (case image_loop env ''cover_'' cover_image images_folder cover_sizes [] t1 of
                            (Inl e, t2) \<Rightarrow> (Inl e, t2)
                          | (Inr cover_images, t2) \<Rightarrow>
                              (Inr (fd\<lparr>keyVisuals := key_visuals, coverImages := cover_images\<rparr>), t2))))))"

section \<open>Persister and main\<close>

text \<open>\<^verbatim>\<open>if not os.path.exists(p): os.makedirs(p)\<close>.\<close>

definition ensure_dir :: "env \<Rightarrow> string \<Rightarrow> trace \<Rightarrow> (error + unit) \<times> trace" where
  "ensure_dir env p t =
     (let t1 = t @ [Exists p] in
      if \<not> os_path_exists env t p then
        (case os_makedirs env t1 p of
           Some e \<Rightarrow> (Inl e, t1)
         | None \<Rightarrow> (Inr (), t1 @ [Makedirs p]))
      else (Inr (), t1))"

definition save_to_file :: "env \<Rightarrow> season_batch \<Rightarrow> string \<Rightarrow> trace \<Rightarrow> (error + unit) \<times> trace" where
  "save_to_file env data filename t =
     (let folder_name = str_int (year (datetime_now env t));
          t1 = t @ [Now]
      in case ensure_dir env folder_name t1 of
           (Inl e, t2) \<Rightarrow> (Inl e, t2)
         | (Inr _, t2) \<Rightarrow>
             (let file_path = path_join folder_name filename in
              if file_path = [] then (Inl OSError, t2)
              else
                (case open_write env t2 file_path of
                   Some e \<Rightarrow> (Inl e, t2)
                 | None \<Rightarrow>
                     (Inr (), t2 @ [DumpJson file_path data, Print (''Data saved to '' @ file_path)]))))"

text \<open>The list comprehension of \<^verbatim>\<open>main\<close>: it stops at the first exception.\<close>

fun extract_all :: "env \<Rightarrow> json list \<Rightarrow> string \<Rightarrow> trace \<Rightarrow> (error + formatted_data list) \<times> trace" where
  "extract_all env [] images_folder t = (Inr [], t)"
| "extract_all env (a # as) images_folder t =
     (case extract_anime_data env a images_folder t of
        (Inl e, t1) \<Rightarrow> (Inl e, t1)
      | (Inr r, t1) \<Rightarrow>
          (case extract_all env as images_folder t1 of
             (Inl e, t2) \<Rightarrow> (Inl e, t2)
           | (Inr rs, t2) \<Rightarrow> (Inr (r # rs), t2)))"

text \<open>
  \<^verbatim>\<open>f"simulcast_{get_current_season().lower()}_{datetime.now().year}"\<close>: the season is
  read first, then the year, each from its own reading of the clock.
\<close>

definition simulcast_name :: "env \<Rightarrow> trace \<Rightarrow> string \<times> trace" where
  "simulcast_name env t =
     (case get_current_season env t of
        (current_season, t1) \<Rightarrow>
          (''simulcast_'' @ lower current_season @ ''_'' @ str_int (year (datetime_now env t1)),
           t1 @ [Now]))"

text \<open>Lines 144 to 160 of \<^verbatim>\<open>main\<close>, after the fetch has returned \<open>anime_list\<close>.\<close>

definition main_after_fetch :: "env \<Rightarrow> json list \<Rightarrow> trace \<Rightarrow> (error + unit) \<times> trace" where
  "main_after_fetch env anime_list t =
     (let folder_name = str_int (year (datetime_now env t));
          t1 = t @ [Now];
          images_folder = path_join folder_name ''images''
      in case ensure_dir env images_folder t1 of
           (Inl e, t2) \<Rightarrow> (Inl e, t2)
         | (Inr _, t2) \<Rightarrow>
             (case extract_all env anime_list images_folder t2 of
                (Inl e, t3) \<Rightarrow> (Inl e, t3)
              | (Inr formatted_anime_list, t3) \<Rightarrow>
                  (case simulcast_name env t3 of
                     (batch_id, t4) \<Rightarrow>
                       (let out = \<lparr>anime = formatted_anime_list, output_id = batch_id,
                                   start = (case formatted_anime_list of [] \<Rightarrow> None | r # _ \<Rightarrow> Some r)\<rparr>;
                            t5 = t4 @ [Print (''Found '' @ str_int (int (length formatted_anime_list))
                                          @ '' anime in the current simulcast season.'')]
                        in case simulcast_name env t5 of
                             (file_stem, t6) \<Rightarrow> save_to_file env out (file_stem @ ''.json'') t6))))"

definition main :: "env \<Rightarrow> trace \<Rightarrow> ((error + unit) \<times> trace) option" where
  "main env t =
     (case fetch_simulcast_anime env (t @ [Print ''Fetching current simulcast season anime...'']) of
        None \<Rightarrow> None
      | Some (Inl e, t1) \<Rightarrow> Some (Inl e, t1)
      | Some (Inr anime_list, t1) \<Rightarrow> Some (main_after_fetch env anime_list t1))"


text \<open>The paths of the JSON files written in a trace, oldest first.\<close>

fun json_files :: "trace \<Rightarrow> string list" where
  "json_files [] = []"
| "json_files (DumpJson p d # t) = p # json_files t"
| "json_files (e # t) = json_files t"

section \<open>A served catalogue\<close>

text \<open>
  A notion of the specification: the pages of the catalogue, as the server hands them out.
  A page is the URL it is requested from, the items of its \<^verbatim>\<open>data\<close> array and its
  \<^verbatim>\<open>links\<close> dictionary. \<open>page_at\<close>: in the state \<open>t\<close> the request for \<open>u\<close> with
  \<open>params\<close> is answered by a response whose JSON body has this \<^verbatim>\<open>data\<close> array and
  these \<^verbatim>\<open>links\<close>. \<open>serves\<close>: the first page answers the request with \<open>params\<close>;
  the \<^verbatim>\<open>next\<close> link of every page but the last is the URL of the page after it, which
  answers the request for that URL without parameters, made after the requests before it;
  the last page has no \<^verbatim>\<open>next\<close> link (or a false one).
\<close>

definition page_at ::
  "env \<Rightarrow> trace \<Rightarrow> json \<Rightarrow> (string \<times> json) list \<Rightarrow> json list \<Rightarrow> (string \<times> json) list \<Rightarrow> bool" where
  "page_at env t u params d links =
     (case requests_get env t u params of
        Inl e \<Rightarrow> False
      | Inr resp \<Rightarrow>
          (case json_result resp of
             Inl e \<Rightarrow> False
           | Inr body \<Rightarrow>
               getitem body ''data'' = Inr (JArr d) \<and> getitem body ''links'' = Inr (JObj links)))"

fun serves ::
  "env \<Rightarrow> trace \<Rightarrow> (string \<times> json) list \<Rightarrow> (json \<times> json list \<times> (string \<times> json) list) list \<Rightarrow> bool" where
  "serves env t params [] = False"
| "serves env t params [(u, d, links)] =
     (page_at env t u params d links
      \<and> \<not> truthy (case map_of links ''next'' of None \<Rightarrow> JNull | Some v \<Rightarrow> v))"
| "serves env t params ((u, d, links) # (u', p') # rest) =
     (page_at env t u params d links
      \<and> map_of links ''next'' = Some u' \<and> truthy u'
      \<and> serves env (t @ [Get u params]) [] ((u', p') # rest))"

section \<open>The images of a raw record\<close>



section \<open>Date strings\<close>






section \<open>Example runs\<close>

text \<open>
  A world for concrete runs: the clock stands at 3 May 2024, the catalogue has one page with
  one record, every image request is answered with status 200, every directory is missing
  and every file can be written.
\<close>

definition example_now :: datetime where
  "example_now = \<lparr>year = 2024, month = 5, day = 3, hour = 1, minute = 2, second = 3,
     microsecond = 4, utcoffset = None\<rparr>"

definition example_anime :: json where
  "example_anime =
     JObj [(''id'', JStr ''42''),
           (''attributes'',
            JObj [(''titles'', JObj [(''en'', JStr ''Show A'')]),
                  (''startDate'', JStr ''2024-04-01T00:00:00Z''),
                  (''episodeCount'', JInt 12),
                  (''mappings'', JObj [(''myanimelist/anime'', JNull)]),
                  (''posterImage'', JObj [(''medium'', JStr ''http://x/img.jpg'')]),
                  (''coverImage'', JObj [(''medium'', JStr ''http://x/c.jpg''),
                                         (''large'', JStr ''http://x/l.jpg'')])])]"

definition example_page :: json where
  "example_page = JObj [(''data'', JArr [example_anime]), (''links'', JObj [])]"

definition example_env :: env where
  "example_env =
     \<lparr>datetime_now = (\<lambda>t. example_now),
      requests_get = (\<lambda>t u ps.
        if ps = [] then Inr \<lparr>status_code = 200, content = ''img'', json_result = Inl JSONDecodeError\<rparr>
        else Inr \<lparr>status_code = 200, content = [], json_result = Inr example_page\<rparr>),
      os_path_exists = (\<lambda>t p. False),
      os_makedirs = (\<lambda>t p. None),
      open_write = (\<lambda>t p. None),
      urlparse_path = (\<lambda>u. Inr (drop 8 u)),
      fromisoformat_other = (\<lambda>s. Inl ValueError)\<rparr>"

text \<open>
  What the transformer makes of \<open>example_anime\<close> in that world, and the events of that run;
  a second record with nothing but an identifier, a null episode count and empty mappings.
\<close>

definition example_formatted :: formatted_data where
  "example_formatted =
     \<lparr>id' = JStr ''42'', seriesID = JStr ''42'', titleEnglish = JStr ''Show A'',
      titleRomaji = JStr [], dateStart = Some ''2024-04-01'', episodeCount = JInt 12,
      format = JStr [], idKitsu = JStr ''42'', idMAL = ''None'', season = [],
      keyVisuals = [\<lparr>height = JInt 0, name = ''poster_medium'', url = JStr ''http://x/img.jpg'',
                     width = JInt 0, localPath = ''2024/images/img.jpg''\<rparr>],
      coverImages = [\<lparr>height = JInt 0, name = ''cover_large'', url = JStr ''http://x/l.jpg'',
                      width = JInt 0, localPath = ''2024/images/l.jpg''\<rparr>]\<rparr>"

definition example_trace :: trace where
  "example_trace =
     [Get (JStr ''http://x/img.jpg'') [], WriteBytes ''2024/images/img.jpg'' ''img'',
      Get (JStr ''http://x/l.jpg'') [], WriteBytes ''2024/images/l.jpg'' ''img'']"

definition example_bare :: json where
  "example_bare =
     JObj [(''id'', JStr ''7''),
           (''attributes'', JObj [(''episodeCount'', JNull), (''mappings'', JObj [])])]"

definition example_bare_formatted :: formatted_data where
  "example_bare_formatted =
     \<lparr>id' = JStr ''7'', seriesID = JStr ''7'', titleEnglish = JStr [],
      titleRomaji = JStr [], dateStart = None, episodeCount = JStr ''None'',
      format = JStr [], idKitsu = JStr ''7'', idMAL = [], season = [],
      keyVisuals = [], coverImages = []\<rparr>"


text \<open>A third record, whose attributes are empty.\<close>

definition example_empty :: json where
  "example_empty = JObj [(''id'', JStr ''8''), (''attributes'', JObj [])]"

text \<open>A catalogue of two pages, the first linking to the second.\<close>

definition example_catalogue :: env where
  "example_catalogue =
     \<lparr>datetime_now = (\<lambda>t. example_now),
      requests_get = (\<lambda>t u ps.
        if u = JStr ''https://kitsu.io/api/edge/anime'' then
          Inr \<lparr>status_code = 200, content = [],
               json_result = Inr (JObj [(''data'', JArr [example_anime]),
                                        (''links'', JObj [(''next'', JStr ''https://kitsu.io/p2'')])])\<rparr>
        else if u = JStr ''https://kitsu.io/p2'' then
          Inr \<lparr>status_code = 200, content = [],
               json_result = Inr (JObj [(''data'', JArr [example_bare]),
                                        (''links'', JObj [(''first'', JStr ''https://kitsu.io/p1'')])])\<rparr>
        else Inl RequestException),
      os_path_exists = (\<lambda>t p. False),
      os_makedirs = (\<lambda>t p. None),
      open_write = (\<lambda>t p. None),
      urlparse_path = (\<lambda>u. Inr (drop 8 u)),
      fromisoformat_other = (\<lambda>s. Inl ValueError)\<rparr>"

text \<open>The events of \<^verbatim>\<open>main\<close> in the first example world.\<close>

definition example_main_trace :: trace where
  "example_main_trace =
     [Print ''Fetching current simulcast season anime...'', Now, Now,
      Get (JStr ''https://kitsu.io/api/edge/anime'')
        [(''filter[status]'', JStr ''current''),
         (''filter[seasonYear]'', JInt 2024),
         (''filter[season]'', JStr ''spring''),
         (''page[limit]'', JInt 20),
         (''sort'', JStr ''-userCount'')],
      Now, Exists ''2024/images'', Makedirs ''2024/images'']
     @ example_trace
     @ [Now, Now, Print ''Found 1 anime in the current simulcast season.'', Now, Now, Now,
        Exists ''2024'', Makedirs ''2024'',
        DumpJson ''2024/simulcast_spring_2024.json''
          \<lparr>anime = [example_formatted], output_id = ''simulcast_spring_2024'',
           start = Some example_formatted\<rparr>,
        Print ''Data saved to 2024/simulcast_spring_2024.json'']"

section \<open>Properties of the season resolver\<close>

lemma month_cases:
  assumes "1 \<le> (m::int)" "m \<le> 12"
  shows "m \<in> {1, 2, 3, 4, 5, 6, 7, 8, 9, 10, 11, 12}"
  using assms by (simp; presburger)

lemma datetime_ymd_first:
  assumes "1 \<le> y" "y \<le> 9999" "1 \<le> k" "k \<le> 12"
  shows "datetime_ymd y k 1 = Inr \<lparr>year = y, month = k, day = 1, hour = 0, minute = 0, second = 0,
        microsecond = 0, utcoffset = None\<rparr>"
proof -
  have "1 \<le> days_in_month y k" by (simp add: days_in_month_def)
  then show ?thesis using assms by (simp add: datetime_ymd_def datetime_new_def)
qed

text \<open>
  Claim C4. For a clock reading with a month from 1 to 12 (and a year from 1 to 9999, as every
  \<^verbatim>\<open>datetime\<close> has), \<^verbatim>\<open>get_current_season\<close> returns Winter for the months 1 to 3,
  Spring for 4 to 6, Summer for 7 to 9 and Fall for 10 to 12, hence one of the four labels;
  \<^verbatim>\<open>get_season_start_date\<close> returns midnight of the first day of that quarter, in the
  year of the reading, and the month of that day is 1, 4, 7 or 10.
\<close>

theorem season_resolver_quarters:
  assumes "1 \<le> month (datetime_now env t)" and "month (datetime_now env t) \<le> 12"
    and "1 \<le> year (datetime_now env t)" and "year (datetime_now env t) \<le> 9999"
  shows "fst (get_current_season env t) =
           (if month (datetime_now env t) \<le> 3 then ''Winter''
            else if month (datetime_now env t) \<le> 6 then ''Spring''
            else if month (datetime_now env t) \<le> 9 then ''Summer'' else ''Fall'')
       \<and> fst (get_current_season env t) \<in> {''Winter'', ''Spring'', ''Summer'', ''Fall''}
       \<and> fst (get_season_start_date env t) =
           Inr \<lparr>year = year (datetime_now env t),
                month = 3 * ((month (datetime_now env t) - 1) div 3) + 1,
                day = 1, hour = 0, minute = 0, second = 0, microsecond = 0, utcoffset = None\<rparr>
       \<and> 3 * ((month (datetime_now env t) - 1) div 3) + 1 \<in> {1, 4, 7, 10}"
proof -
  define m where "m = month (datetime_now env t)"
  define y where "y = year (datetime_now env t)"
  have y: "1 \<le> y" "y \<le> 9999"
    using assms by (simp_all add: y_def)
  note mk = datetime_ymd_first [OF y]
  have season: "fst (get_current_season env t) =
      (if m \<in> set [1, 2, 3] then ''Winter'' else if m \<in> set [4, 5, 6] then ''Spring''
       else if m \<in> set [7, 8, 9] then ''Summer'' else ''Fall'')"
    by (simp add: get_current_season_def Let_def m_def)
  have start: "fst (get_season_start_date env t) =
      (if m \<in> set [1, 2, 3] then datetime_ymd y 1 1 else if m \<in> set [4, 5, 6] then datetime_ymd y 4 1
       else if m \<in> set [7, 8, 9] then datetime_ymd y 7 1 else datetime_ymd y 10 1)"
    by (simp add: get_season_start_date_def Let_def m_def y_def)
  have "m \<in> {1, 2, 3, 4, 5, 6, 7, 8, 9, 10, 11, 12}"
    using assms month_cases by (simp add: m_def)
  then have "fst (get_current_season env t) =
           (if m \<le> 3 then ''Winter'' else if m \<le> 6 then ''Spring''
            else if m \<le> 9 then ''Summer'' else ''Fall'')
       \<and> fst (get_current_season env t) \<in> {''Winter'', ''Spring'', ''Summer'', ''Fall''}
       \<and> fst (get_season_start_date env t) =
           Inr \<lparr>year = y, month = 3 * ((m - 1) div 3) + 1,
                day = 1, hour = 0, minute = 0, second = 0, microsecond = 0, utcoffset = None\<rparr>
       \<and> 3 * ((m - 1) div 3) + 1 \<in> {1, 4, 7, 10}"
    unfolding season start
    by (elim insertE emptyE) (simp_all add: mk)
  then show ?thesis by (simp add: m_def y_def)
qed

theorem season_resolver_quarters_witness:
  "fst (get_current_season example_env []) = ''Spring''
   \<and> fst (get_season_start_date example_env []) =
       Inr \<lparr>year = 2024, month = 4, day = 1, hour = 0, minute = 0, second = 0,
            microsecond = 0, utcoffset = None\<rparr>"
  using season_resolver_quarters [of example_env "[]"]
  by (simp add: example_env_def example_now_def)

section \<open>Properties of the record transformer\<close>

lemma bind_err_Inr: "bind_err r f = Inr y \<longleftrightarrow> (\<exists>x. r = Inr x \<and> f x = Inr y)"
  by (cases r) (simp_all add: bind_err_def)

lemma extract_anime_data_Inr:
  assumes "extract_anime_data env anime_data images_folder t = (Inr r, t')"
  obtains attributes fd poster_image cover_image t1 where
    "formatted_fields env anime_data = Inr (attributes, fd)"
    "image_group attributes ''posterImage'' = Inr poster_image"
    "image_loop env ''poster_'' poster_image images_folder poster_sizes [] t = (Inr (keyVisuals r), t1)"
    "image_group attributes ''coverImage'' = Inr cover_image"
    "image_loop env ''cover_'' cover_image images_folder cover_sizes [] t1 = (Inr (coverImages r), t')"
    "r = fd\<lparr>keyVisuals := keyVisuals r, coverImages := coverImages r\<rparr>"
proof -
  note a = assms [unfolded extract_anime_data_def]
  obtain attributes fd where ff: "formatted_fields env anime_data = Inr (attributes, fd)"
    using a by (cases "formatted_fields env anime_data") auto
  note b = a [unfolded ff, simplified]
  obtain poster_image where pi: "image_group attributes ''posterImage'' = Inr poster_image"
    using b by (cases "image_group attributes ''posterImage''") auto
  note c = b [unfolded pi, simplified]
  obtain kv t1 where pl: "image_loop env ''poster_'' poster_image images_folder poster_sizes [] t = (Inr kv, t1)"
    using c by (cases "image_loop env ''poster_'' poster_image images_folder poster_sizes [] t")
      (auto split: sum.splits)
  note d = c [unfolded pl, simplified]
  obtain cover_image where ci: "image_group attributes ''coverImage'' = Inr cover_image"
    using d by (cases "image_group attributes ''coverImage''") auto
  note e = d [unfolded ci, simplified]
  obtain cv where cl: "image_loop env ''cover_'' cover_image images_folder cover_sizes [] t1 = (Inr cv, t')"
    and r: "r = fd\<lparr>keyVisuals := kv, coverImages := cv\<rparr>"
    using e by (cases "image_loop env ''cover_'' cover_image images_folder cover_sizes [] t1")
      (auto split: sum.splits)
  have "keyVisuals r = kv" "coverImages r = cv" using r by simp_all
  with ff pi pl ci cl r show ?thesis using that by simp
qed


lemma formatted_fields_Inr:
  assumes "formatted_fields env anime_data = Inr (attributes, fd)"
  obtains ec sd mal where
    "getitem anime_data ''attributes'' = Inr attributes"
    "get_none attributes ''episodeCount'' = Inr ec"
    "episodeCount fd = (if ec = JNull then JStr ''None'' else ec)"
    "getitem anime_data ''id'' = Inr (id' fd)"
    "seriesID fd = id' fd" "idKitsu fd = id' fd"
    "get_none attributes ''startDate'' = Inr sd" "format_date env sd = Inr (dateStart fd)"
    "get_in attributes ''mappings'' ''myanimelist/anime'' (JStr []) = Inr mal"
    "idMAL fd = str mal"
    "keyVisuals fd = []" "coverImages fd = []"
proof -
  note a = assms [unfolded formatted_fields_def bind_err_Inr Let_def]
  from a show ?thesis
    by (elim exE conjE) (rule that, auto)
qed


text \<open>The two example records, run through the transformer.\<close>

lemma example_extract:
  "extract_anime_data example_env example_anime ''2024/images'' [] = (Inr example_formatted, example_trace)"
  by code_simp


lemma example_bare_extract:
  "extract_anime_data example_env example_bare ''2024/images'' [] = (Inr example_bare_formatted, [])"
  by code_simp

lemma example_empty_extract:
  "extract_anime_data example_env example_empty ''2024/images'' []
     = (Inr (example_bare_formatted\<lparr>id' := JStr ''8'', seriesID := JStr ''8'', idKitsu := JStr ''8''\<rparr>), [])"
  by code_simp

text \<open>
  Claim C6. Whenever \<^verbatim>\<open>extract_anime_data\<close> returns a record, its \<^verbatim>\<open>id\<close>,
  \<^verbatim>\<open>seriesID\<close> and \<^verbatim>\<open>idKitsu\<close> are all the value of the raw record's top-level key
  \<^verbatim>\<open>id\<close>.
\<close>

theorem formatted_ids_equal:
  assumes "extract_anime_data env anime_data images_folder t = (Inr r, t')"
  shows "getitem anime_data ''id'' = Inr (id' r) \<and> seriesID r = id' r \<and> idKitsu r = id' r"
proof -
  from assms obtain attributes fd where
    ff: "formatted_fields env anime_data = Inr (attributes, fd)"
    and r: "r = fd\<lparr>keyVisuals := keyVisuals r, coverImages := coverImages r\<rparr>"
    by (rule extract_anime_data_Inr)
  from ff obtain ec where
    "getitem anime_data ''id'' = Inr (id' fd)" "seriesID fd = id' fd" "idKitsu fd = id' fd"
    and "get_none attributes ''episodeCount'' = Inr ec"
    by (rule formatted_fields_Inr)
  moreover have "id' r = id' fd" "seriesID r = seriesID fd" "idKitsu r = idKitsu fd"
    by (subst r, simp)+
  ultimately show ?thesis by simp
qed

theorem formatted_ids_equal_witness:
  "getitem example_anime ''id'' = Inr (JStr ''42'')
   \<and> (\<exists>r t'. extract_anime_data example_env example_anime ''2024/images'' [] = (Inr r, t')
         \<and> id' r = JStr ''42'' \<and> seriesID r = JStr ''42'' \<and> idKitsu r = JStr ''42'')"
  using formatted_ids_equal [OF example_extract] example_extract
  by (simp add: example_formatted_def)

text \<open>
  Claim C3. Whenever \<^verbatim>\<open>extract_anime_data\<close> returns a record for a raw record with the
  attributes dictionary \<open>kvs\<close>: if \<^verbatim>\<open>episodeCount\<close> is missing from the attributes or
  is \<^verbatim>\<open>None\<close> there, the field \<^verbatim>\<open>episodeCount\<close> of the result is the string
  \<^verbatim>\<open>"None"\<close>; any other value is passed through unchanged. The field is never
  \<^verbatim>\<open>None\<close>.
\<close>

theorem episode_count_sentinel:
  assumes "extract_anime_data env anime_data images_folder t = (Inr r, t')"
    and "getitem anime_data ''attributes'' = Inr (JObj kvs)"
  shows "episodeCount r =
           (case map_of kvs ''episodeCount'' of
              None \<Rightarrow> JStr ''None''
            | Some v \<Rightarrow> if v = JNull then JStr ''None'' else v)
       \<and> episodeCount r \<noteq> JNull"
proof -
  from assms(1) obtain attributes fd where
    ff: "formatted_fields env anime_data = Inr (attributes, fd)"
    and r: "r = fd\<lparr>keyVisuals := keyVisuals r, coverImages := coverImages r\<rparr>"
    by (rule extract_anime_data_Inr)
  from ff obtain ec where
    a: "getitem anime_data ''attributes'' = Inr attributes"
    and g: "get_none attributes ''episodeCount'' = Inr ec"
    and e: "episodeCount fd = (if ec = JNull then JStr ''None'' else ec)"
    by (rule formatted_fields_Inr)
  have "attributes = JObj kvs" using a assms(2) by simp
  with g have "ec = (case map_of kvs ''episodeCount'' of None \<Rightarrow> JNull | Some v \<Rightarrow> v)"
    by (simp add: get_none_def split: option.splits)
  moreover have "episodeCount r = episodeCount fd" by (subst r) simp
  ultimately show ?thesis using e by (simp split: option.splits)
qed

theorem episode_count_sentinel_witness:
  "(\<exists>r t'. extract_anime_data example_env example_empty ''2024/images'' [] = (Inr r, t')
      \<and> episodeCount r = JStr ''None'')
   \<and> (\<exists>r t'. extract_anime_data example_env example_bare ''2024/images'' [] = (Inr r, t')
         \<and> episodeCount r = JStr ''None'')
   \<and> (\<exists>r t'. extract_anime_data example_env example_anime ''2024/images'' [] = (Inr r, t')
         \<and> episodeCount r = JInt 12)"
  using episode_count_sentinel [OF example_empty_extract, of "[]"]
    episode_count_sentinel [OF example_bare_extract,
      of "[(''episodeCount'', JNull), (''mappings'', JObj [])]"]
    episode_count_sentinel [OF example_extract,
      of "[(''titles'', JObj [(''en'', JStr ''Show A'')]),
                  (''startDate'', JStr ''2024-04-01T00:00:00Z''),
                  (''episodeCount'', JInt 12),
                  (''mappings'', JObj [(''myanimelist/anime'', JNull)]),
                  (''posterImage'', JObj [(''medium'', JStr ''http://x/img.jpg'')]),
                  (''coverImage'', JObj [(''medium'', JStr ''http://x/c.jpg''),
                                         (''large'', JStr ''http://x/l.jpg'')])]"]
    example_empty_extract example_bare_extract example_extract
  by (simp add: example_empty_def example_bare_def example_anime_def)

text \<open>
  Claim C10. Whenever \<^verbatim>\<open>extract_anime_data\<close> returns a record for a raw record whose
  attributes hold a \<^verbatim>\<open>mappings\<close> dictionary \<open>ms\<close>: if \<open>ms\<close> has the key
  \<^verbatim>\<open>myanimelist/anime\<close> with the value \<^verbatim>\<open>None\<close>, the field \<^verbatim>\<open>idMAL\<close> is the
  four-character string \<^verbatim>\<open>"None"\<close>; it is the empty string only if the key is missing
  from \<open>ms\<close>; any other value is turned into text with \<^verbatim>\<open>str\<close>.
\<close>

theorem idMAL_of_null_mapping:
  assumes "extract_anime_data env anime_data images_folder t = (Inr r, t')"
    and "getitem anime_data ''attributes'' = Inr (JObj kvs)"
    and "map_of kvs ''mappings'' = Some (JObj ms)"
  shows "idMAL r =
           (case map_of ms ''myanimelist/anime'' of
              None \<Rightarrow> []
            | Some v \<Rightarrow> if v = JNull then ''None'' else str v)"
proof -
  from assms(1) obtain attributes fd where
    ff: "formatted_fields env anime_data = Inr (attributes, fd)"
    and r: "r = fd\<lparr>keyVisuals := keyVisuals r, coverImages := coverImages r\<rparr>"
    by (rule extract_anime_data_Inr)
  from ff obtain mal where
    a: "getitem anime_data ''attributes'' = Inr attributes"
    and g: "get_in attributes ''mappings'' ''myanimelist/anime'' (JStr []) = Inr mal"
    and e: "idMAL fd = str mal"
    by (rule formatted_fields_Inr)
  have "attributes = JObj kvs" using a assms(2) by simp
  with g assms(3) have "mal = (case map_of ms ''myanimelist/anime'' of None \<Rightarrow> JStr [] | Some v \<Rightarrow> v)"
    by (simp add: get_in_def bind_err_def split: option.splits)
  moreover have "idMAL r = idMAL fd" by (subst r) simp
  ultimately show ?thesis using e by (simp split: option.splits)
qed

theorem idMAL_of_null_mapping_witness:
  "(\<exists>r t'. extract_anime_data example_env example_anime ''2024/images'' [] = (Inr r, t')
      \<and> idMAL r = ''None'')
   \<and> (\<exists>r t'. extract_anime_data example_env example_bare ''2024/images'' [] = (Inr r, t')
         \<and> idMAL r = [])"
  using idMAL_of_null_mapping [OF example_extract,
      of "[(''titles'', JObj [(''en'', JStr ''Show A'')]),
                  (''startDate'', JStr ''2024-04-01T00:00:00Z''),
                  (''episodeCount'', JInt 12),
                  (''mappings'', JObj [(''myanimelist/anime'', JNull)]),
                  (''posterImage'', JObj [(''medium'', JStr ''http://x/img.jpg'')]),
                  (''coverImage'', JObj [(''medium'', JStr ''http://x/c.jpg''),
                                         (''large'', JStr ''http://x/l.jpg'')])]"
      "[(''myanimelist/anime'', JNull)]"]
    idMAL_of_null_mapping [OF example_bare_extract,
      of "[(''episodeCount'', JNull), (''mappings'', JObj [])]" "[]"]
    example_extract example_bare_extract
  by (simp add: example_bare_def example_anime_def)





section \<open>Properties of the date formatter\<close>































lemma datetime_new_Inr:
  assumes "datetime_new y mo d h mi s us tz = Inr dt"
  shows "year dt = y \<and> month dt = mo \<and> day dt = d
       \<and> 1 \<le> y \<and> y \<le> 9999 \<and> 1 \<le> mo \<and> mo \<le> 12 \<and> 1 \<le> d \<and> d \<le> 31"
proof -
  have "days_in_month y mo \<le> 31" by (simp add: days_in_month_def)
  with assms show ?thesis
    by (auto simp: datetime_new_def split: if_splits)
qed























section \<open>Properties of the image loop and the downloader\<close>
















section \<open>Determinism of the record transformer\<close>

lemma image_loop_same:
  assumes same: "\<forall>u ta tb. fst (download_image env u folder ta) = fst (download_image env u folder tb)"
  shows "fst (image_loop env prefix img folder sizes acc ta)
       = fst (image_loop env prefix img folder sizes acc tb)"
proof (induction sizes arbitrary: acc ta tb)
  case Nil
  show ?case by simp
next
  case (Cons sz sizes)
  show ?case
  proof (cases "get_none img sz")
    case (Inl e)
    then show ?thesis by simp
  next
    case (Inr u)
    show ?thesis
    proof (cases "truthy u")
      case False
      with Inr Cons.IH show ?thesis by simp
    next
      case True
      obtain ra ta' where a: "download_image env u folder ta = (ra, ta')"
        by (cases "download_image env u folder ta")
      obtain rb tb' where b: "download_image env u folder tb = (rb, tb')"
        by (cases "download_image env u folder tb")
      have eq: "rb = ra"
        using same [rule_format, of u ta tb] a b by simp
      show ?thesis
      proof (cases ra)
        case (Inl e)
        with Inr True a b eq show ?thesis by simp
      next
        case r: (Inr lp)
        show ?thesis
        proof (cases lp)
          case None
          with Inr True a b eq r Cons.IH show ?thesis by simp
        next
          case (Some p)
          show ?thesis
          proof (cases "descriptor prefix img sz u p")
            case (Inl e)
            with Inr True a b eq r Some Cons.IH show ?thesis by simp
          next
            case d: (Inr dd)
            with Inr True a b eq r Some Cons.IH show ?thesis by simp
          qed
        qed
      qed
    qed
  qed
qed

lemma extract_anime_data_same:
  assumes same: "\<forall>u ta tb. fst (download_image env u folder ta) = fst (download_image env u folder tb)"
  shows "fst (extract_anime_data env anime_data folder ta)
       = fst (extract_anime_data env anime_data folder tb)"
proof (cases "formatted_fields env anime_data")
  case (Inl e)
  then show ?thesis by (simp add: extract_anime_data_def)
next
  case (Inr p)
  obtain attributes fd where p: "p = (attributes, fd)" by (cases p)
  show ?thesis
  proof (cases "image_group attributes ''posterImage''")
    case (Inl e)
    with Inr p show ?thesis by (simp add: extract_anime_data_def)
  next
    case pi: (Inr poster_image)
    obtain ka ta1 where la: "image_loop env ''poster_'' poster_image folder poster_sizes [] ta = (ka, ta1)"
      by (cases "image_loop env ''poster_'' poster_image folder poster_sizes [] ta")
    obtain kb tb1 where lb: "image_loop env ''poster_'' poster_image folder poster_sizes [] tb = (kb, tb1)"
      by (cases "image_loop env ''poster_'' poster_image folder poster_sizes [] tb")
    have k: "kb = ka"
      using image_loop_same [OF same, of "''poster_''" poster_image poster_sizes "[]" ta tb] la lb
      by simp
    show ?thesis
    proof (cases ka)
      case (Inl e)
      with Inr p pi la lb k show ?thesis by (simp add: extract_anime_data_def)
    next
      case kv: (Inr key_visuals)
      show ?thesis
      proof (cases "image_group attributes ''coverImage''")
        case (Inl e)
        with Inr p pi la lb k kv show ?thesis by (simp add: extract_anime_data_def)
      next
        case ci: (Inr cover_image)
        obtain ca ta2 where ma: "image_loop env ''cover_'' cover_image folder cover_sizes [] ta1 = (ca, ta2)"
          by (cases "image_loop env ''cover_'' cover_image folder cover_sizes [] ta1")
        obtain cb tb2 where mb: "image_loop env ''cover_'' cover_image folder cover_sizes [] tb1 = (cb, tb2)"
          by (cases "image_loop env ''cover_'' cover_image folder cover_sizes [] tb1")
        have c: "cb = ca"
          using image_loop_same [OF same, of "''cover_''" cover_image cover_sizes "[]" ta1 tb1] ma mb
          by simp
        show ?thesis
          using Inr p pi la lb k kv ci ma mb c
          by (cases ca) (simp_all add: extract_anime_data_def)
      qed
    qed
  qed
qed

text \<open>
  Claim C8. Assume that the result of \<^verbatim>\<open>download_image\<close> for a URL does not depend on
  what happened before (every image download yields the same result). If
  \<^verbatim>\<open>extract_anime_data\<close> returns the record \<open>r1\<close> for a raw record, then applying it
  again to the same raw record, in the world the first application left behind, returns
  \<open>r1\<close> again.
\<close>

theorem extract_anime_data_idempotent:
  assumes "\<forall>u ta tb. fst (download_image env u images_folder ta)
                     = fst (download_image env u images_folder tb)"
    and "extract_anime_data env anime_data images_folder t = (Inr r1, t1)"
    and "extract_anime_data env anime_data images_folder t1 = (res2, t2)"
  shows "res2 = Inr r1"
  using extract_anime_data_same [OF assms(1), of anime_data t t1] assms(2) assms(3)
  by simp

lemma example_download_same:
  "\<forall>u ta tb. fst (download_image example_env u ''2024/images'' ta)
             = fst (download_image example_env u ''2024/images'' tb)"
  by (simp add: download_image_def example_env_def Let_def split: json.splits sum.splits)

theorem extract_anime_data_idempotent_witness:
  "fst (extract_anime_data example_env example_anime ''2024/images'' example_trace)
     = Inr example_formatted"
  using extract_anime_data_idempotent [OF example_download_same example_extract,
      of "fst (extract_anime_data example_env example_anime ''2024/images'' example_trace)"
         "snd (extract_anime_data example_env example_anime ''2024/images'' example_trace)"]
  by simp

section \<open>Properties of the paginated fetcher\<close>

lemma read_page_ok:
  assumes "getitem body ''data'' = Inr (JArr d)" "getitem body ''links'' = Inr (JObj links)"
  shows "read_page body acc =
           Inr (acc @ d, case map_of links ''next'' of None \<Rightarrow> JNull | Some v \<Rightarrow> v)"
  using assms by (simp add: read_page_def bind_err_def get_none_def split: option.splits)

lemma fetch_loop_step:
  assumes "truthy u" "page_at env t u params d links"
  shows "fetch_loop env u params acc t =
           fetch_loop env (case map_of links ''next'' of None \<Rightarrow> JNull | Some v \<Rightarrow> v) []
             (acc @ d) (t @ [Get u params])"
proof -
  from assms(2) obtain resp body where
    r: "requests_get env t u params = Inr resp" and j: "json_result resp = Inr body"
    and d: "getitem body ''data'' = Inr (JArr d)" and l: "getitem body ''links'' = Inr (JObj links)"
    unfolding page_at_def by (auto split: sum.splits)
  show ?thesis
    by (subst fetch_loop.simps) (simp add: assms(1) r j bind_err_def read_page_ok [OF d l])
qed

lemma fetch_loop_stop: "\<not> truthy u \<Longrightarrow> fetch_loop env u params acc t = Some (Inr acc, t)"
  by (subst fetch_loop.simps) simp

lemma fetch_loop_pages:
  assumes "serves env t params ((u, p) # rest)" and "truthy u"
  shows "fetch_loop env u params acc t =
           Some (Inr (acc @ concat (map (\<lambda>q. fst (snd q)) ((u, p) # rest))),
                 t @ Get u params # map (\<lambda>q. Get (fst q) []) rest)"
  using assms
proof (induction rest arbitrary: u p params acc t)
  case Nil
  obtain d links where p: "p = (d, links)" by (cases p)
  from Nil.prems have pg: "page_at env t u params d links"
    and nx: "\<not> truthy (case map_of links ''next'' of None \<Rightarrow> JNull | Some v \<Rightarrow> v)"
    unfolding p by simp_all
  show ?case
    unfolding p fetch_loop_step [OF Nil.prems(2) pg] fetch_loop_stop [OF nx] by simp
next
  case (Cons q rest)
  obtain d links where p: "p = (d, links)" by (cases p)
  obtain u' p' where q: "q = (u', p')" by (cases q)
  from Cons.prems have pg: "page_at env t u params d links"
    and nx: "map_of links ''next'' = Some u'" and tr: "truthy u'"
    and sv: "serves env (t @ [Get u params]) [] ((u', p') # rest)"
    unfolding p q by simp_all
  have "fetch_loop env u params acc t = fetch_loop env u' [] (acc @ d) (t @ [Get u params])"
    using fetch_loop_step [OF Cons.prems(2) pg] nx by simp
  also have "\<dots> = Some (Inr ((acc @ d) @ concat (map (\<lambda>q. fst (snd q)) ((u', p') # rest))),
                 (t @ [Get u params]) @ Get u' [] # map (\<lambda>q. Get (fst q) []) rest)"
    by (rule Cons.IH [OF sv tr])
  finally show ?case
    unfolding p q by simp
qed

lemma season_start_year:
  assumes "fst (get_season_start_date env t) = Inr season_start"
  shows "year season_start = year (datetime_now env t)"
proof -
  from assms obtain mo where
    "datetime_new (year (datetime_now env t)) mo 1 0 0 0 0 None = Inr season_start"
    by (auto simp: get_season_start_date_def Let_def datetime_ymd_def split: if_splits)
  from datetime_new_Inr [OF this] show ?thesis by simp
qed

text \<open>
  Claim C2. Let the clock be readable (the season start date is computed) and let the server
  serve the pages \<open>(url, p) # rest\<close>: the first to the first request, which carries the
  status filter \<^verbatim>\<open>current\<close>, the year of the clock as \<^verbatim>\<open>filter[seasonYear]\<close>, the
  season in lower case as \<^verbatim>\<open>filter[season]\<close>, the page limit 20 and the sort key
  \<^verbatim>\<open>-userCount\<close>, the others to the requests that follow. Then
  \<^verbatim>\<open>fetch_simulcast_anime\<close> returns: its result is the \<^verbatim>\<open>data\<close> arrays of the pages,
  concatenated in order, so its length is the sum of the lengths of the arrays; the requests
  it has made are the first one with those parameters and, for every further page, one for
  the \<^verbatim>\<open>next\<close> URL of the page before with no parameters; no request follows the page
  without a \<^verbatim>\<open>next\<close> link.
\<close>

theorem fetch_simulcast_anime_pages:
  assumes "fst (get_season_start_date env t) = Inr season_start"
    and "serves env (t @ [Now, Now])
           [(''filter[status]'', JStr ''current''),
            (''filter[seasonYear]'', JInt (year season_start)),
            (''filter[season]'', JStr (lower (fst (get_current_season env (t @ [Now]))))),
            (''page[limit]'', JInt 20),
            (''sort'', JStr ''-userCount'')]
           ((JStr ''https://kitsu.io/api/edge/anime'', p) # rest)"
  shows "\<exists>l tr. fetch_simulcast_anime env t = Some (Inr l, tr)
       \<and> l = concat (map (\<lambda>q. fst (snd q)) ((JStr ''https://kitsu.io/api/edge/anime'', p) # rest))
       \<and> length l = sum_list (map (\<lambda>q. length (fst (snd q)))
                               ((JStr ''https://kitsu.io/api/edge/anime'', p) # rest))
       \<and> tr = t @ [Now, Now]
                  @ Get (JStr ''https://kitsu.io/api/edge/anime'')
                      [(''filter[status]'', JStr ''current''),
            (''filter[seasonYear]'', JInt (year season_start)),
            (''filter[season]'', JStr (lower (fst (get_current_season env (t @ [Now]))))),
            (''page[limit]'', JInt 20),
            (''sort'', JStr ''-userCount'')]
                  # map (\<lambda>q. Get (fst q) []) rest
       \<and> year season_start = year (datetime_now env t)"
proof -
  define cs where "cs = fst (get_current_season env (t @ [Now]))"
  define ps where "ps = first_params (year season_start) cs"
  have ps: "[(''filter[status]'', JStr ''current''),
            (''filter[seasonYear]'', JInt (year season_start)),
            (''filter[season]'', JStr (lower (fst (get_current_season env (t @ [Now]))))),
            (''page[limit]'', JInt 20),
            (''sort'', JStr ''-userCount'')] = ps"
    by (simp add: ps_def cs_def first_params_def)
  have s1: "get_season_start_date env t = (Inr season_start, t @ [Now])"
    using assms(1) by (simp add: get_season_start_date_def Let_def)
  have s2: "get_current_season env (t @ [Now]) = (cs, t @ [Now, Now])"
    by (simp add: cs_def get_current_season_def Let_def)
  have run: "fetch_simulcast_anime env t =
      fetch_loop env (JStr ''https://kitsu.io/api/edge/anime'') ps [] (t @ [Now, Now])"
    unfolding fetch_simulcast_anime_def s1 ps_def
    by (simp add: s2)
  have res: "fetch_simulcast_anime env t =
           Some (Inr (concat (map (\<lambda>q. fst (snd q)) ((JStr ''https://kitsu.io/api/edge/anime'', p) # rest))),
                 t @ [Now, Now]
                   @ Get (JStr ''https://kitsu.io/api/edge/anime'') ps
                   # map (\<lambda>q. Get (fst q) []) rest)"
    unfolding run using fetch_loop_pages [OF assms(2) [unfolded ps], of "[]"] by simp
  have len: "length (concat (map (\<lambda>q. fst (snd q)) qs)) = sum_list (map (\<lambda>q. length (fst (snd q))) qs)"
    for qs :: "(json \<times> json list \<times> (string \<times> json) list) list"
    by (induction qs) simp_all
  show ?thesis
    unfolding ps
    using res len [of "(JStr ''https://kitsu.io/api/edge/anime'', p) # rest"]
      season_start_year [OF assms(1)]
    by simp
qed

lemma example_catalogue_start:
  "fst (get_season_start_date example_catalogue []) =
     Inr \<lparr>year = 2024, month = 4, day = 1, hour = 0, minute = 0, second = 0,
          microsecond = 0, utcoffset = None\<rparr>"
  by code_simp

lemma example_catalogue_season:
  "lower (fst (get_current_season example_catalogue [Now])) = ''spring''"
  by code_simp

lemma example_catalogue_serves:
  "serves example_catalogue [Now, Now]
     [(''filter[status]'', JStr ''current''),
      (''filter[seasonYear]'', JInt 2024),
      (''filter[season]'', JStr ''spring''),
      (''page[limit]'', JInt 20),
      (''sort'', JStr ''-userCount'')]
     [(JStr ''https://kitsu.io/api/edge/anime'',
       [example_anime], [(''next'', JStr ''https://kitsu.io/p2'')]),
      (JStr ''https://kitsu.io/p2'', [example_bare], [(''first'', JStr ''https://kitsu.io/p1'')])]"
  by code_simp

theorem fetch_simulcast_anime_pages_witness:
  "fetch_simulcast_anime example_catalogue [] =
     Some (Inr [example_anime, example_bare],
           [Now, Now,
            Get (JStr ''https://kitsu.io/api/edge/anime'')
              [(''filter[status]'', JStr ''current''),
               (''filter[seasonYear]'', JInt 2024),
               (''filter[season]'', JStr ''spring''),
               (''page[limit]'', JInt 20),
               (''sort'', JStr ''-userCount'')],
            Get (JStr ''https://kitsu.io/p2'') []])"
  using fetch_simulcast_anime_pages [of example_catalogue "[]", OF example_catalogue_start,
      of "([example_anime], [(''next'', JStr ''https://kitsu.io/p2'')])"
         "[(JStr ''https://kitsu.io/p2'', [example_bare], [(''first'', JStr ''https://kitsu.io/p1'')])]"]
    example_catalogue_serves
  by (simp add: example_catalogue_season)

section \<open>Properties of the persister\<close>

lemma json_files_append: "json_files (a @ b) = json_files a @ json_files b"
  by (induction a rule: json_files.induct) simp_all

lemma download_image_files:
  "download_image env u folder t = (r, t1) \<Longrightarrow> json_files t1 = json_files t"
  unfolding download_image_def
  by (auto simp: Let_def json_files_append split: if_splits json.splits sum.splits option.splits)

lemma image_loop_files:
  "image_loop env prefix img folder sizes acc t = (r, t1) \<Longrightarrow> json_files t1 = json_files t"
proof (induction sizes arbitrary: acc t)
  case Nil
  then show ?case by simp
next
  case (Cons sz sizes)
  show ?case
  proof (cases "get_none img sz")
    case (Inl e)
    with Cons.prems show ?thesis by simp
  next
    case (Inr u)
    show ?thesis
    proof (cases "truthy u")
      case False
      with Inr Cons.prems have "image_loop env prefix img folder sizes acc t = (r, t1)" by simp
      then show ?thesis by (rule Cons.IH)
    next
      case True
      obtain res t0 where d: "download_image env u folder t = (res, t0)"
        by (cases "download_image env u folder t")
      note f = download_image_files [OF d]
      from Cons.prems Inr True d
      have "t1 = t0 \<or> (\<exists>acc'. image_loop env prefix img folder sizes acc' t0 = (r, t1))"
        by (auto split: sum.splits option.splits if_splits)
      then show ?thesis
        using f Cons.IH by auto
    qed
  qed
qed

lemma extract_anime_data_files:
  assumes "extract_anime_data env a folder t = (r, t1)"
  shows "json_files t1 = json_files t"
proof (cases "formatted_fields env a")
  case (Inl e)
  with assms show ?thesis by (simp add: extract_anime_data_def)
next
  case (Inr af)
  obtain attributes fd where af: "af = (attributes, fd)" by (cases af)
  note run = assms [unfolded extract_anime_data_def Inr af, simplified]
  show ?thesis
  proof (cases "image_group attributes ''posterImage''")
    case (Inl e)
    with run show ?thesis by simp
  next
    case p: (Inr p)
    obtain x ta where pl: "image_loop env ''poster_'' p folder poster_sizes [] t = (x, ta)"
      by (cases "image_loop env ''poster_'' p folder poster_sizes [] t")
    note f1 = image_loop_files [OF pl]
    note run0 = run [unfolded p, simplified]
    note run1 = run0 [unfolded pl, simplified]
    show ?thesis
    proof (cases x)
      case (Inl e)
      with run1 f1 show ?thesis by simp
    next
      case kv: (Inr key_visuals)
      note run2 = run1 [unfolded kv, simplified]
      show ?thesis
      proof (cases "image_group attributes ''coverImage''")
        case (Inl e)
        with run2 f1 show ?thesis by simp
      next
        case c: (Inr c)
        obtain y tb where cl: "image_loop env ''cover_'' c folder cover_sizes [] ta = (y, tb)"
          by (cases "image_loop env ''cover_'' c folder cover_sizes [] ta")
        note f2 = image_loop_files [OF cl]
        note run3 = run2 [unfolded c, simplified]
        from run3 [unfolded cl] have "t1 = tb"
          by (cases y) simp_all
        with f1 f2 show ?thesis by simp
      qed
    qed
  qed
qed

lemma extract_all_files:
  "extract_all env as folder t = (r, t1) \<Longrightarrow> json_files t1 = json_files t"
proof (induction as arbitrary: t r t1)
  case Nil
  then show ?case by simp
next
  case (Cons a as)
  obtain x ta where e: "extract_anime_data env a folder t = (x, ta)"
    by (cases "extract_anime_data env a folder t")
  note f = extract_anime_data_files [OF e]
  obtain y tb where r: "extract_all env as folder ta = (y, tb)"
    by (cases "extract_all env as folder ta")
  note g = Cons.IH [OF r]
  from Cons.prems e r have "t1 = ta \<or> t1 = tb"
    by (auto split: sum.splits)
  with f g show ?case by auto
qed

lemma ensure_dir_files:
  "ensure_dir env p t = (r, t1) \<Longrightarrow> json_files t1 = json_files t"
  unfolding ensure_dir_def
  by (auto simp: Let_def json_files_append split: if_splits option.splits)

lemma fetch_loop_files_aux:
  "fetch_loop env u ps acc t = Some y \<Longrightarrow> json_files (snd y) = json_files t"
proof (induction rule: fetch_loop.raw_induct [rotated 1, consumes 1])
  case (1 fetch_loop env page_url params anime_list t y)
  then show ?case
    by (auto simp: json_files_append split: if_splits sum.splits prod.splits)
qed

lemma fetch_loop_files:
  "fetch_loop env u ps acc t = Some (r, t1) \<Longrightarrow> json_files t1 = json_files t"
  by (drule fetch_loop_files_aux) simp

lemma str_int_2024: "str_int 2024 = ''2024''"
  by code_simp

lemma lower_spring: "lower ''Spring'' = ''spring''"
  by code_simp

lemma path_join_images: "path_join ''2024'' ''images'' = ''2024/images''"
  by code_simp

lemma path_join_output:
  "path_join ''2024'' (''simulcast_spring_2024'' @ ''.json'') = ''2024/simulcast_spring_2024.json''"
  by code_simp

lemma spring_season:
  assumes "month (datetime_now env t) \<in> {4, 5, 6}"
  shows "get_current_season env t = (''Spring'', t @ [Now])"
proof -
  have "month (datetime_now env t) \<notin> set [1, 2, 3]" "month (datetime_now env t) \<in> set [4, 5, 6]"
    using assms by auto
  then show ?thesis
    by (simp add: get_current_season_def Let_def)
qed

lemma spring_name:
  assumes "month (datetime_now env t) \<in> {4, 5, 6}" "year (datetime_now env (t @ [Now])) = 2024"
  shows "simulcast_name env t = (''simulcast_spring_2024'', t @ [Now, Now])"
  by (simp add: simulcast_name_def spring_season [OF assms(1)] assms(2) lower_spring str_int_2024)

lemma save_to_file_Inr:
  assumes clock: "year (datetime_now env t) = 2024"
    and run: "save_to_file env data filename t = (Inr (), t')"
  shows "\<exists>t0. t' = t0 @ [DumpJson (path_join ''2024'' filename) data,
                          Print (''Data saved to '' @ path_join ''2024'' filename)]
            \<and> json_files t0 = json_files t"
proof -
  obtain x t2 where e: "ensure_dir env ''2024'' (t @ [Now]) = (x, t2)"
    by (cases "ensure_dir env ''2024'' (t @ [Now])")
  from ensure_dir_files [OF e] have f: "json_files t2 = json_files t"
    by (simp add: json_files_append)
  note r = run [unfolded save_to_file_def Let_def clock str_int_2024 e]
  from r have "t' = t2 @ [DumpJson (path_join ''2024'' filename) data,
                          Print (''Data saved to '' @ path_join ''2024'' filename)]"
    by (cases x) (simp_all split: if_splits option.splits)
  with f show ?thesis by blast
qed

lemma main_after_fetch_Inr:
  assumes clock: "\<And>h. year (datetime_now env h) = 2024 \<and> month (datetime_now env h) \<in> {4, 5, 6}"
    and run: "main_after_fetch env anime_list t = (Inr (), t')"
  shows "\<exists>t0 batch. t' = t0 @ [DumpJson ''2024/simulcast_spring_2024.json'' batch,
                                Print ''Data saved to 2024/simulcast_spring_2024.json'']
            \<and> output_id batch = ''simulcast_spring_2024''
            \<and> json_files t0 = json_files t"
proof -
  have y: "year (datetime_now env h) = 2024" and mo: "month (datetime_now env h) \<in> {4, 5, 6}" for h
    using clock [of h] by simp_all
  have nm: "simulcast_name env h = (''simulcast_spring_2024'', h @ [Now, Now])" for h
    by (rule spring_name [OF mo y])
  obtain x t2 where e: "ensure_dir env ''2024/images'' (t @ [Now]) = (x, t2)"
    by (cases "ensure_dir env ''2024/images'' (t @ [Now])")
  from ensure_dir_files [OF e] have f2: "json_files t2 = json_files t"
    by (simp add: json_files_append)
  note r0 = run [unfolded main_after_fetch_def Let_def y str_int_2024 path_join_images e nm]
  from r0 obtain u where x: "x = Inr u"
    by (cases x) simp_all
  note r1 = r0 [unfolded x, simplified]
  obtain z t3 where a: "extract_all env anime_list ''2024/images'' t2 = (z, t3)"
    by (cases "extract_all env anime_list ''2024/images'' t2")
  from extract_all_files [OF a] have f3: "json_files t3 = json_files t2" .
  note r2 = r1 [unfolded a]
  from r2 obtain fl where z: "z = Inr fl"
    by (cases z) simp_all
  note r3 = r2 [unfolded z, simplified]
  define batch where "batch = \<lparr>anime = fl, output_id = ''simulcast_spring_2024'',
      start = (case fl of [] \<Rightarrow> None | r # _ \<Rightarrow> Some r)\<rparr>"
  define t6 where "t6 = t3 @ [Now, Now, Print (''Found '' @ str_int (int (length fl))
      @ '' anime in the current simulcast season.''), Now, Now]"
  from r3 have s: "save_to_file env batch (''simulcast_spring_2024'' @ ''.json'') t6 = (Inr (), t')"
    by (simp add: batch_def t6_def)
  from save_to_file_Inr [OF y s] obtain t0 where
    t': "t' = t0 @ [DumpJson ''2024/simulcast_spring_2024.json'' batch,
                    Print (''Data saved to '' @ ''2024/simulcast_spring_2024.json'')]"
    and f0: "json_files t0 = json_files t6"
    unfolding path_join_output by blast
  have "json_files t6 = json_files t3"
    by (simp add: t6_def json_files_append)
  with f0 f3 f2 have "json_files t0 = json_files t" by simp
  moreover have "output_id batch = ''simulcast_spring_2024''"
    by (simp add: batch_def)
  ultimately show ?thesis
    using t' by (intro exI [of _ t0] exI [of _ batch]) simp
qed

text \<open>
  Claim C9. Take a run of \<^verbatim>\<open>main\<close> in which every reading of the clock gives the year
  2024 and a month from April to June, and which ends without an exception. Its last two
  events are the JSON file written at the path \<^verbatim>\<open>2024/simulcast_spring_2024.json\<close> and
  the message that names this path; the value written has the identifier
  \<^verbatim>\<open>simulcast_spring_2024\<close>; and this is the only JSON file the run writes.
\<close>

theorem output_path_spring_2024:
  assumes clock: "\<And>h. year (datetime_now env h) = 2024 \<and> month (datetime_now env h) \<in> {4, 5, 6}"
    and run: "main env t = Some (Inr (), t')"
  shows "\<exists>t0 batch. t' = t0 @ [DumpJson ''2024/simulcast_spring_2024.json'' batch,
                                Print ''Data saved to 2024/simulcast_spring_2024.json'']
            \<and> output_id batch = ''simulcast_spring_2024''
            \<and> json_files t' = json_files t @ [''2024/simulcast_spring_2024.json'']"
proof -
  define t1 where "t1 = t @ [Print ''Fetching current simulcast season anime...'']"
  from run obtain anime_list t2 where
    fetch: "fetch_simulcast_anime env t1 = Some (Inr anime_list, t2)"
    and rest: "main_after_fetch env anime_list t2 = (Inr (), t')"
    unfolding main_def t1_def [symmetric]
    by (auto split: option.splits sum.splits prod.splits)
  have f1: "json_files t1 = json_files t"
    by (simp add: t1_def json_files_append)
  obtain s ta where g: "get_season_start_date env t1 = (s, ta)"
    by (cases "get_season_start_date env t1")
  then have ta: "ta = t1 @ [Now]"
    by (simp add: get_season_start_date_def Let_def)
  from fetch [unfolded fetch_simulcast_anime_def g] obtain ps where
    "fetch_loop env (JStr ''https://kitsu.io/api/edge/anime'') ps [] (ta @ [Now])
       = Some (Inr anime_list, t2)"
    by (cases s) (simp_all add: get_current_season_def Let_def)
  from fetch_loop_files [OF this] have f2: "json_files t2 = json_files t"
    by (simp add: ta f1 json_files_append)
  from main_after_fetch_Inr [OF clock rest] obtain t0 batch where
    t': "t' = t0 @ [DumpJson ''2024/simulcast_spring_2024.json'' batch,
                    Print ''Data saved to 2024/simulcast_spring_2024.json'']"
    and o: "output_id batch = ''simulcast_spring_2024''"
    and f0: "json_files t0 = json_files t2"
    by blast
  have "json_files t' = json_files t @ [''2024/simulcast_spring_2024.json'']"
    by (simp add: t' json_files_append f0 f2)
  with t' o show ?thesis by blast
qed

lemma example_clock:
  "year (datetime_now example_env h) = 2024 \<and> month (datetime_now example_env h) \<in> {4, 5, 6}"
  by (simp add: example_env_def example_now_def)

lemma example_main: "main example_env [] = Some (Inr (), example_main_trace)"
  by code_simp

theorem output_path_spring_2024_witness:
  "\<exists>t'. main example_env [] = Some (Inr (), t')
      \<and> json_files t' = [''2024/simulcast_spring_2024.json'']
      \<and> (\<exists>t0 batch. t' = t0 @ [DumpJson ''2024/simulcast_spring_2024.json'' batch,
                                  Print ''Data saved to 2024/simulcast_spring_2024.json''])"
  using output_path_spring_2024 [OF example_clock example_main] example_main
  by auto

end
